theory Spec2Isabelle
  imports Complex_Main "HOL-Library.Sublist" "HOL-Library.Multiset"
begin

section \<open>The store of \<^verbatim>\<open>main.py\<close>\<close>

text \<open>
  The bot keeps its state in an SQLite file with three tables. Two of them are written
  after start-up:
  \<^item> \<^verbatim>\<open>progress(user_id INTEGER PRIMARY KEY, idx INTEGER NOT NULL DEFAULT 0)\<close>, a map
    from the user id to the cursor;
  \<^item> \<^verbatim>\<open>ratings(user_id, genre_id, score1, score2, flag1, flag2, comment, updated_at)\<close>
    with primary key \<^verbatim>\<open>(user_id, genre_id)\<close>, a map from the pair to the other six
    columns.
  A table with a primary key is a partial map from the key to the row; Python integers
  are \<open>int\<close>; a nullable column is an \<open>option\<close>. The timestamp is the ISO string that
  \<^verbatim>\<open>datetime.now(timezone.utc).isoformat()\<close> yields; the clock is an argument of the
  model. Every function that opens a connection takes the store and, when it writes,
  returns the new store.
\<close>

datatype py_error = IndexError | ZeroDivisionError

record rating =
  score1 :: "int option"
  score2 :: "int option"
  flag1 :: int
  flag2 :: int
  comment :: "string option"
  updated_at :: string

record store =
  progress :: "int \<rightharpoonup> int"
  ratings :: "int \<times> int \<rightharpoonup> rating"

definition empty_store :: store where
  "empty_store = \<lparr>progress = Map.empty, ratings = Map.empty\<rparr>"

text \<open>
  \<^verbatim>\<open>get_user_idx\<close>: the stored cursor, or, when the user has no row, a new row with
  cursor 0 and the result 0.
\<close>

definition get_user_idx :: "int \<Rightarrow> store \<Rightarrow> int \<times> store" where
  "get_user_idx user_id db =
     (case progress db user_id of
        None \<Rightarrow> (0, db\<lparr>progress := (progress db)(user_id \<mapsto> 0)\<rparr>)
      | Some idx \<Rightarrow> (idx, db))"

text \<open>
  \<^verbatim>\<open>set_user_idx\<close>: \<^verbatim>\<open>INSERT ... ON CONFLICT(user_id) DO UPDATE SET idx=excluded.idx\<close>
  inserts the row or overwrites its cursor.
\<close>

definition set_user_idx :: "int \<Rightarrow> int \<Rightarrow> store \<Rightarrow> store" where
  "set_user_idx user_id idx db = db\<lparr>progress := (progress db)(user_id \<mapsto> idx)\<rparr>"

text \<open>\<^verbatim>\<open>get_rating\<close>: the row of the pair, or \<^verbatim>\<open>None\<close>.\<close>

definition get_rating :: "int \<Rightarrow> int \<Rightarrow> store \<Rightarrow> rating option" where
  "get_rating user_id genre_id db = ratings db (user_id, genre_id)"

text \<open>
  \<^verbatim>\<open>upsert_rating\<close>: the five keyword arguments default to \<^verbatim>\<open>None\<close>, and \<^verbatim>\<open>None\<close>
  means that the field was not supplied. A row that \<^verbatim>\<open>fetchone\<close> returns is a tuple of
  six columns, which is truthy, so \<^verbatim>\<open>if existing\<close> tests for the presence of the row.
  The flags go through \<^verbatim>\<open>int(...)\<close>, the identity on integers.
\<close>

definition upsert_rating ::
  "string \<Rightarrow> int \<Rightarrow> int \<Rightarrow> int option \<Rightarrow> int option \<Rightarrow> int option \<Rightarrow> int option \<Rightarrow>
   string option \<Rightarrow> store \<Rightarrow> store" where
  "upsert_rating now user_id genre_id s1 s2 f1 f2 c db =
     (let row =
        (case get_rating user_id genre_id db of
           Some ex \<Rightarrow>
             \<lparr>score1 = (case s1 of None \<Rightarrow> score1 ex | Some v \<Rightarrow> Some v),
              score2 = (case s2 of None \<Rightarrow> score2 ex | Some v \<Rightarrow> Some v),
              flag1 = (case f1 of None \<Rightarrow> flag1 ex | Some v \<Rightarrow> v),
              flag2 = (case f2 of None \<Rightarrow> flag2 ex | Some v \<Rightarrow> v),
              comment = (case c of None \<Rightarrow> comment ex | Some v \<Rightarrow> Some v),
              updated_at = now\<rparr>
         | None \<Rightarrow>
             \<lparr>score1 = s1,
              score2 = s2,
              flag1 = (case f1 of None \<Rightarrow> 0 | Some v \<Rightarrow> v),
              flag2 = (case f2 of None \<Rightarrow> 0 | Some v \<Rightarrow> v),
              comment = c,
              updated_at = now\<rparr>)
      in db\<lparr>ratings := (ratings db)((user_id, genre_id) \<mapsto> row)\<rparr>)"

text \<open>
  The value of a field as the table \<^verbatim>\<open>ratings\<close> holds it for a pair: the field of the
  pair's row in the table, or the given default when the table has no row for the pair.
  It is read off the table itself, not through \<^verbatim>\<open>get_rating\<close>.
\<close>

definition stored :: "(rating \<Rightarrow> 'a) \<Rightarrow> 'a \<Rightarrow> store \<Rightarrow> int \<Rightarrow> int \<Rightarrow> 'a" where
  "stored field dflt db user_id genre_id =
     (case ratings db (user_id, genre_id) of None \<Rightarrow> dflt | Some r \<Rightarrow> field r)"

section \<open>The computed score\<close>

text \<open>
  \<^verbatim>\<open>computed_score\<close>: the flags are the integers of the columns and are tested for
  truth, that is, for being non-zero. The result is a Python float; the model computes in
  \<open>real\<close>, so the rounding of the two products and of the sum is not part of it.
\<close>

definition computed_score :: "int option \<Rightarrow> int option \<Rightarrow> int \<Rightarrow> int \<Rightarrow> real option" where
  "computed_score skip kiff special flou =
     (if special \<noteq> 0 then None
      else if skip = None \<or> kiff = None then None
      else if flou \<noteq> 0 then Some (0.35 * real_of_int (the skip) + 0.65 * real_of_int (the kiff))
      else Some (0.5 * real_of_int (the skip) + 0.5 * real_of_int (the kiff)))"

text \<open>
  The score as section 4.2 of the specification words it, over a record with boolean
  flags: absent for a special record, absent when a score is absent, otherwise the
  weighted sum, with the weights chosen by the ambiguous flag.
\<close>

definition computedScore_spec :: "int option \<Rightarrow> int option \<Rightarrow> bool \<Rightarrow> bool \<Rightarrow> real option" where
  "computedScore_spec score_a score_b flag_special flag_ambiguous =
     (case (flag_special, score_a, score_b) of
        (True, _, _) \<Rightarrow> None
      | (False, None, _) \<Rightarrow> None
      | (False, Some a, None) \<Rightarrow> None
      | (False, Some a, Some b) \<Rightarrow>
          Some (if flag_ambiguous then 35 / 100 * real_of_int a + 65 / 100 * real_of_int b
                else 1 / 2 * real_of_int a + 1 / 2 * real_of_int b))"

section \<open>Python lists and strings\<close>

text \<open>
  \<^verbatim>\<open>xs[i]\<close>: an index below zero counts from the end, and an index outside the list
  raises \<^verbatim>\<open>IndexError\<close>.
\<close>

definition py_index :: "'a list \<Rightarrow> int \<Rightarrow> py_error + 'a" where
  "py_index xs i =
     (if 0 \<le> i \<and> i < int (length xs) then Inr (xs ! nat i)
      else if i < 0 \<and> - int (length xs) \<le> i then Inr (xs ! nat (i + int (length xs)))
      else Inl IndexError)"

text \<open>
  \<^verbatim>\<open>xs[start:stop]\<close>: a bound below zero counts from the end, and both bounds are
  clipped to the list, so a slice never raises.
\<close>

definition slice_bound :: "int \<Rightarrow> int \<Rightarrow> int" where
  "slice_bound n i = (if i < 0 then max 0 (i + n) else min i n)"

definition py_slice :: "'a list \<Rightarrow> int \<Rightarrow> int \<Rightarrow> 'a list" where
  "py_slice xs start stop =
     (let lo = slice_bound (int (length xs)) start;
          hi = slice_bound (int (length xs)) stop
      in take (nat (hi - lo)) (drop (nat lo) xs))"

text \<open>
  \<^verbatim>\<open>sorted(xs, key=..., reverse=...)\<close> is a stable sort. With \<^verbatim>\<open>reverse=True\<close> the
  list is sorted as if every comparison were reversed, and elements with equal keys
  still keep their original order: the list is reversed, sorted and reversed again.
  \<^const>\<open>sort_key\<close> is the insertion sort of the list library.
\<close>

definition py_sorted :: "('a \<Rightarrow> 'k::linorder) \<Rightarrow> bool \<Rightarrow> 'a list \<Rightarrow> 'a list" where
  "py_sorted key reverse xs = (if reverse then rev (sort_key key (rev xs)) else sort_key key xs)"

text \<open>
  A Python string is a sequence of code points. The model has the strings whose code
  points lie in U+0000 to U+00FF: a \<open>char\<close> is the code point with that number, so
  \<open>of_char c\<close> is \<^verbatim>\<open>ord(c)\<close>. On this range \<^verbatim>\<open>str.isspace\<close> holds for the codes 9 to
  13, 28 to 32, 133 (U+0085) and 160 (U+00A0), and \<^verbatim>\<open>str.strip()\<close> removes these at
  both ends. On this range \<^verbatim>\<open>str.lower()\<close> works code point by code point and stays in
  the range: it adds 32 to the codes 65 to 90 (A to Z), 192 to 214 and 216 to 222 (the
  capital letters of Latin-1, which exclude the multiplication sign 215) and keeps
  every other code point.
\<close>

definition isspace :: "char \<Rightarrow> bool" where
  "isspace c =
     ((9 \<le> (of_char c :: nat) \<and> (of_char c :: nat) \<le> 13) \<or>
      (28 \<le> (of_char c :: nat) \<and> (of_char c :: nat) \<le> 32) \<or>
      (of_char c :: nat) = 133 \<or> (of_char c :: nat) = 160)"

definition strip :: "string \<Rightarrow> string" where
  "strip s = rev (dropWhile isspace (rev (dropWhile isspace s)))"

definition lower_char :: "char \<Rightarrow> char" where
  "lower_char c =
     (if (65 \<le> (of_char c :: nat) \<and> (of_char c :: nat) \<le> 90) \<or>
         (192 \<le> (of_char c :: nat) \<and> (of_char c :: nat) \<le> 214) \<or>
         (216 \<le> (of_char c :: nat) \<and> (of_char c :: nat) \<le> 222)
      then char_of ((of_char c :: nat) + 32) else c)"

definition lower :: "string \<Rightarrow> string" where
  "lower s = map lower_char s"

text \<open>\<^verbatim>\<open>q in g\<close> on strings: \<open>q\<close> starts at some position of \<open>g\<close>.\<close>

fun str_contains :: "string \<Rightarrow> string \<Rightarrow> bool" where
  "str_contains q [] = (q = [])"
| "str_contains q (c # cs) = (prefix q (c # cs) \<or> str_contains q cs)"

section \<open>The command \<^verbatim>\<open>/next\<close>\<close>

text \<open>
  \<^verbatim>\<open>next_genre\<close> reads the cursor, reduces it modulo the size of the catalog, shows
  the genre at that position and stores the reduced index plus one. The catalog
  \<^verbatim>\<open>genres\<close> is the list that \<^verbatim>\<open>load_genres\<close> returned at start-up (it raises when the
  list is empty); the model takes it as an argument. The result is the pair shown to the
  user and the new store.
\<close>

definition next_genre :: "string list \<Rightarrow> int \<Rightarrow> store \<Rightarrow> py_error + ((int \<times> string) \<times> store)" where
  "next_genre genres user_id db =
     (case get_user_idx user_id db of
        (idx0, db1) \<Rightarrow>
          if length genres = 0 then Inl ZeroDivisionError
          else
            (let idx = idx0 mod int (length genres) in
             case py_index genres idx of
               Inl e \<Rightarrow> Inl e
             | Inr genre_name \<Rightarrow> Inr ((idx, genre_name), set_user_idx user_id (idx + 1) db1)))"

text \<open>\<open>n\<close> calls of \<^verbatim>\<open>/next\<close> by one user in sequence: the genre ids shown, in order.\<close>

fun next_genre_times :: "string list \<Rightarrow> int \<Rightarrow> nat \<Rightarrow> store \<Rightarrow> py_error + (int list \<times> store)" where
  "next_genre_times genres user_id 0 db = Inr ([], db)"
| "next_genre_times genres user_id (Suc n) db =
     (case next_genre genres user_id db of
        Inl e \<Rightarrow> Inl e
      | Inr ((genre_id, genre_name), db1) \<Rightarrow>
          (case next_genre_times genres user_id n db1 of
             Inl e \<Rightarrow> Inl e
           | Inr (ids, db2) \<Rightarrow> Inr (genre_id # ids, db2)))"

text \<open>The cursor of a user as \<^verbatim>\<open>get_user_idx\<close> reads it: 0 when there is no row.\<close>

definition cursor :: "store \<Rightarrow> int \<Rightarrow> int" where
  "cursor db user_id = fst (get_user_idx user_id db)"

section \<open>Pagination\<close>

text \<open>
  Both views compute \<^verbatim>\<open>max(1, math.ceil(len(...) / self.page_size))\<close>. The division is
  the true division of Python, which raises on a zero divisor; the quotient is computed
  in \<open>real\<close>.
\<close>

definition total_pages :: "nat \<Rightarrow> int \<Rightarrow> py_error + int" where
  "total_pages n page_size =
     (if page_size = 0 then Inl ZeroDivisionError
      else Inr (max 1 \<lceil>real n / real_of_int page_size\<rceil>))"

record SearchResultsView =
  sv_user_id :: int
  sv_results :: "(int \<times> string) list"
  sv_query :: string
  sv_page_size :: int
  sv_page :: int
  sv_prev_disabled :: bool
  sv_next_disabled :: bool

definition sv_total_pages :: "SearchResultsView \<Rightarrow> py_error + int" where
  "sv_total_pages v = total_pages (length (sv_results v)) (sv_page_size v)"

definition sv_page_slice :: "SearchResultsView \<Rightarrow> (int \<times> string) list \<times> int \<times> int" where
  "sv_page_slice v =
     (let start = sv_page v * sv_page_size v;
          end = start + sv_page_size v
      in (py_slice (sv_results v) start end, start, end))"

definition sv_update_buttons :: "SearchResultsView \<Rightarrow> py_error + SearchResultsView" where
  "sv_update_buttons v =
     (case sv_total_pages v of
        Inl e \<Rightarrow> Inl e
      | Inr tp \<Rightarrow> Inr (v\<lparr>sv_prev_disabled := (sv_page v \<le> 0),
                         sv_next_disabled := (sv_page v \<ge> tp - 1)\<rparr>))"

definition sv_init :: "int \<Rightarrow> (int \<times> string) list \<Rightarrow> string \<Rightarrow> int \<Rightarrow> py_error + SearchResultsView" where
  "sv_init user_id results query page_size =
     sv_update_buttons
       \<lparr>sv_user_id = user_id, sv_results = results, sv_query = query,
        sv_page_size = page_size, sv_page = 0,
        sv_prev_disabled = False, sv_next_disabled = False\<rparr>"

definition sv_prev_button :: "SearchResultsView \<Rightarrow> py_error + SearchResultsView" where
  "sv_prev_button v = sv_update_buttons (v\<lparr>sv_page := max 0 (sv_page v - 1)\<rparr>)"

definition sv_next_button :: "SearchResultsView \<Rightarrow> py_error + SearchResultsView" where
  "sv_next_button v =
     (case sv_total_pages v of
        Inl e \<Rightarrow> Inl e
      | Inr tp \<Rightarrow> sv_update_buttons (v\<lparr>sv_page := min (tp - 1) (sv_page v + 1)\<rparr>))"

section \<open>The command \<^verbatim>\<open>/search\<close>\<close>

text \<open>
  \<^verbatim>\<open>search_genres\<close> answers with one of three messages: the query is empty after
  \<^verbatim>\<open>strip\<close>, no genre matches, or the first page of a view over the matches.
\<close>

datatype search_reply =
  EmptyQuery
  | NoMatch
  | Found SearchResultsView

definition search_genres :: "string list \<Rightarrow> int \<Rightarrow> string \<Rightarrow> py_error + search_reply" where
  "search_genres genres user_id query =
     (let q = lower (strip query) in
      if q = [] then Inr EmptyQuery
      else
        (let results = map (\<lambda>(i, g). (int i, g))
                         (filter (\<lambda>(i, g). str_contains q (lower g)) (enumerate 0 genres))
         in if results = [] then Inr NoMatch
            else (case sv_init user_id results query 15 of
                    Inl e \<Rightarrow> Inl e
                  | Inr view \<Rightarrow> Inr (Found view))))"








section \<open>The command \<^verbatim>\<open>/rank\<close>\<close>

text \<open>
  An item of the ranking is \<^verbatim>\<open>(score, genre_id, name)\<close>. \<^verbatim>\<open>RankView\<close> always has the
  page size 15 and starts in descending order.
\<close>

record RankView =
  rv_user_id :: int
  rv_items :: "(real \<times> int \<times> string) list"
  rv_order :: string
  rv_page :: int
  rv_page_size :: int
  rv_prev_disabled :: bool
  rv_next_disabled :: bool

definition rv_sorted_items :: "RankView \<Rightarrow> (real \<times> int \<times> string) list" where
  "rv_sorted_items v = py_sorted fst (rv_order v = ''desc'') (rv_items v)"

definition rv_total_pages :: "RankView \<Rightarrow> py_error + int" where
  "rv_total_pages v = total_pages (length (rv_items v)) (rv_page_size v)"

definition rv_page_slice :: "RankView \<Rightarrow> (real \<times> int \<times> string) list \<times> int \<times> int \<times> int" where
  "rv_page_slice v =
     (let sitems = rv_sorted_items v;
          start = rv_page v * rv_page_size v;
          end = start + rv_page_size v
      in (py_slice sitems start end, start, end, int (length sitems)))"

definition rv_update_buttons :: "RankView \<Rightarrow> py_error + RankView" where
  "rv_update_buttons v =
     (case rv_total_pages v of
        Inl e \<Rightarrow> Inl e
      | Inr tp \<Rightarrow> Inr (v\<lparr>rv_prev_disabled := (rv_page v \<le> 0),
                         rv_next_disabled := (rv_page v \<ge> tp - 1)\<rparr>))"

definition rv_init :: "int \<Rightarrow> (real \<times> int \<times> string) list \<Rightarrow> py_error + RankView" where
  "rv_init user_id items =
     rv_update_buttons
       \<lparr>rv_user_id = user_id, rv_items = items, rv_order = ''desc'',
        rv_page = 0, rv_page_size = 15,
        rv_prev_disabled = False, rv_next_disabled = False\<rparr>"

definition rv_prev_button :: "RankView \<Rightarrow> py_error + RankView" where
  "rv_prev_button v = rv_update_buttons (v\<lparr>rv_page := max 0 (rv_page v - 1)\<rparr>)"

definition rv_next_button :: "RankView \<Rightarrow> py_error + RankView" where
  "rv_next_button v =
     (case rv_total_pages v of
        Inl e \<Rightarrow> Inl e
      | Inr tp \<Rightarrow> rv_update_buttons (v\<lparr>rv_page := min (tp - 1) (rv_page v + 1)\<rparr>))"

text \<open>
  The loop of \<^verbatim>\<open>rank\<close> over the fetched rows \<^verbatim>\<open>(genre_id, score1, ..., updated_at)\<close>:
  a row without a computed score is skipped, the others are appended in the order of
  the rows.
\<close>

fun rank_items :: "string list \<Rightarrow> (int \<times> rating) list \<Rightarrow> py_error + (real \<times> int \<times> string) list" where
  "rank_items genres [] = Inr []"
| "rank_items genres ((genre_id, r) # rows) =
     (case computed_score (score1 r) (score2 r) (flag1 r) (flag2 r) of
        None \<Rightarrow> rank_items genres rows
      | Some sc \<Rightarrow>
          (case py_index genres genre_id of
             Inl e \<Rightarrow> Inl e
           | Inr name \<Rightarrow>
               (case rank_items genres rows of
                  Inl e \<Rightarrow> Inl e
                | Inr items \<Rightarrow> Inr ((sc, genre_id, name) # items))))"

section \<open>Example inputs\<close>

definition example_search_view :: SearchResultsView where
  "example_search_view =
     \<lparr>sv_user_id = 1,
      sv_results = [(0, ''Jazz''), (1, ''Rap''), (2, ''Metal''), (3, ''Salsa''), (4, ''Samba'')],
      sv_query = ''a'', sv_page_size = 2, sv_page = 2,
      sv_prev_disabled = False, sv_next_disabled = True\<rparr>"

definition example_rank_view :: RankView where
  "example_rank_view =
     \<lparr>rv_user_id = 1,
      rv_items = [(7, 0, ''Jazz''), (6.7, 1, ''Pop''), (7, 2, ''Metal'')],
      rv_order = ''desc'', rv_page = 0, rv_page_size = 15,
      rv_prev_disabled = True, rv_next_disabled = True\<rparr>"

definition example_rows :: "(int \<times> rating) list" where
  "example_rows =
     [(0, \<lparr>score1 = Some 8, score2 = Some 6, flag1 = 0, flag2 = 0, comment = None,
           updated_at = ''2024-01-01T00:00:00+00:00''\<rparr>),
      (1, \<lparr>score1 = Some 8, score2 = Some 6, flag1 = 0, flag2 = 1, comment = None,
           updated_at = ''2024-01-01T00:00:01+00:00''\<rparr>),
      (2, \<lparr>score1 = Some 7, score2 = Some 7, flag1 = 0, flag2 = 0, comment = Some ''x'',
           updated_at = ''2024-01-01T00:00:02+00:00''\<rparr>)]"

section \<open>Properties of the store\<close>

lemma progress_set_user_idx:
  "progress (set_user_idx user_id idx db) = (progress db)(user_id \<mapsto> idx)"
  by (simp add: set_user_idx_def)

lemma ratings_set_user_idx: "ratings (set_user_idx user_id idx db) = ratings db"
  by (simp add: set_user_idx_def)

text \<open>
  C10. \<^verbatim>\<open>set_user_idx\<close> on a user without a cursor row creates the row with the given
  index, and for every user and index \<^verbatim>\<open>get_user_idx\<close> right after
  \<^verbatim>\<open>set_user_idx user_id idx\<close> returns that index and leaves the store as it is.
\<close>

theorem set_then_get_user_idx:
  "progress (set_user_idx user_id idx db) user_id = Some idx \<and>
   get_user_idx user_id (set_user_idx user_id idx db) = (idx, set_user_idx user_id idx db)"
  by (simp add: get_user_idx_def progress_set_user_idx)

lemma upsert_rating_row:
  "ratings (upsert_rating now u g s1 s2 f1 f2 c db) (u, g) =
     Some \<lparr>score1 = (case s1 of None \<Rightarrow> stored score1 None db u g | Some v \<Rightarrow> Some v),
           score2 = (case s2 of None \<Rightarrow> stored score2 None db u g | Some v \<Rightarrow> Some v),
           flag1 = (case f1 of None \<Rightarrow> stored flag1 0 db u g | Some v \<Rightarrow> v),
           flag2 = (case f2 of None \<Rightarrow> stored flag2 0 db u g | Some v \<Rightarrow> v),
           comment = (case c of None \<Rightarrow> stored comment None db u g | Some v \<Rightarrow> Some v),
           updated_at = now\<rparr>"
  by (simp add: upsert_rating_def get_rating_def stored_def Let_def split: option.splits)

lemma upsert_rating_frame:
  "ratings (upsert_rating now u g s1 s2 f1 f2 c db) =
     (ratings db)((u, g) := ratings (upsert_rating now u g s1 s2 f1 f2 c db) (u, g)) \<and>
   progress (upsert_rating now u g s1 s2 f1 f2 c db) = progress db"
  by (simp add: upsert_rating_def Let_def)

lemma upsert_rating_twice:
  "ratings (upsert_rating now2 u g None None None None (Some ''x'')
             (upsert_rating now1 u g (Some 7) None None None None db)) (u, g) =
     Some \<lparr>score1 = Some 7, score2 = stored score2 None db u g,
           flag1 = stored flag1 0 db u g, flag2 = stored flag2 0 db u g,
           comment = Some ''x'', updated_at = now2\<rparr>"
  by (simp add: upsert_rating_row) (simp add: stored_def upsert_rating_row)

text \<open>
  C2. For every pair \<open>(u, g)\<close> and every choice of supplied fields, the row that
  \<^verbatim>\<open>upsert_rating\<close> leaves for the pair has every field that was not supplied equal to
  the value that the table held before (or to the default when it had no row: 0 for the flags,
  absent for the scores and the comment), every supplied field equal to the supplied
  value, and \<^verbatim>\<open>updated_at\<close> equal to the current time; the rows of the other pairs and
  the cursors are unchanged. In particular, supplying only \<open>score1 = 7\<close> and then only
  the comment \<open>x\<close> leaves a row with \<open>score1 = 7\<close> and the comment \<open>x\<close>.
\<close>

theorem upsert_rating_partial:
  "ratings (upsert_rating now u g s1 s2 f1 f2 c db) (u, g) =
     Some \<lparr>score1 = (case s1 of None \<Rightarrow> stored score1 None db u g | Some v \<Rightarrow> Some v),
           score2 = (case s2 of None \<Rightarrow> stored score2 None db u g | Some v \<Rightarrow> Some v),
           flag1 = (case f1 of None \<Rightarrow> stored flag1 0 db u g | Some v \<Rightarrow> v),
           flag2 = (case f2 of None \<Rightarrow> stored flag2 0 db u g | Some v \<Rightarrow> v),
           comment = (case c of None \<Rightarrow> stored comment None db u g | Some v \<Rightarrow> Some v),
           updated_at = now\<rparr> \<and>
   ratings (upsert_rating now u g s1 s2 f1 f2 c db) =
     (ratings db)((u, g) := ratings (upsert_rating now u g s1 s2 f1 f2 c db) (u, g)) \<and>
   progress (upsert_rating now u g s1 s2 f1 f2 c db) = progress db \<and>
   ratings (upsert_rating now2 u g None None None None (Some ''x'')
             (upsert_rating now u g (Some 7) None None None None db)) (u, g) =
     Some \<lparr>score1 = Some 7, score2 = stored score2 None db u g,
           flag1 = stored flag1 0 db u g, flag2 = stored flag2 0 db u g,
           comment = Some ''x'', updated_at = now2\<rparr>"
  using upsert_rating_row [of now u g s1 s2 f1 f2 c db]
    upsert_rating_frame [of now u g s1 s2 f1 f2 c db]
    upsert_rating_twice [of now2 u g now db]
  by (intro conjI) simp_all

section \<open>Properties of the computed score\<close>

text \<open>
  C1. The computed score of a rating is absent when the special flag is set, whatever
  the other inputs are, and when one of the two scores is absent; otherwise it is
  \<open>0.35 * score_a + 0.65 * score_b\<close> when the ambiguous flag is set and
  \<open>0.5 * score_a + 0.5 * score_b\<close> when it is not.
\<close>

theorem computed_score_refines_spec:
  "computed_score skip kiff special flou = computedScore_spec skip kiff (special \<noteq> 0) (flou \<noteq> 0)"
  by (cases skip; cases kiff) (simp_all add: computed_score_def computedScore_spec_def)

section \<open>Properties of \<^verbatim>\<open>/next\<close>\<close>

lemma py_index_in_range:
  "0 \<le> i \<Longrightarrow> i < int (length xs) \<Longrightarrow> py_index xs i = Inr (xs ! nat i)"
  by (simp add: py_index_def)

lemma cursor_set_user_idx: "cursor (set_user_idx u idx db) u = idx"
  by (simp add: cursor_def get_user_idx_def set_user_idx_def)

lemma set_user_idx_after_get:
  "set_user_idx u idx (snd (get_user_idx u db)) = set_user_idx u idx db"
  by (simp add: get_user_idx_def set_user_idx_def split: option.splits)

lemma next_genre_step:
  assumes "genres \<noteq> []"
  shows "next_genre genres u db =
           Inr ((cursor db u mod int (length genres),
                 genres ! nat (cursor db u mod int (length genres))),
                set_user_idx u (cursor db u mod int (length genres) + 1) db)"
proof -
  let ?n = "int (length genres)"
  have pos: "0 < ?n" using assms by simp
  have rng: "0 \<le> cursor db u mod ?n" "cursor db u mod ?n < ?n"
    using pos by simp_all
  obtain idx0 db1 where g: "get_user_idx u db = (idx0, db1)"
    by (cases "get_user_idx u db")
  have c: "cursor db u = idx0" by (simp add: cursor_def g)
  have s: "set_user_idx u k db1 = set_user_idx u k db" for k
    using set_user_idx_after_get [of u k db] by (simp add: g)
  show ?thesis
    using assms rng py_index_in_range [OF rng]
    by (simp add: next_genre_def g c s Let_def)
qed

lemma next_genre_times_ids:
  assumes "genres \<noteq> []"
  shows "\<exists>db'. next_genre_times genres u n db =
           Inr (map (\<lambda>j. (cursor db u + int j) mod int (length genres)) [0..<n], db')"
proof (induction n arbitrary: db)
  case 0
  show ?case by simp
next
  case (Suc n)
  let ?n = "int (length genres)"
  let ?db1 = "set_user_idx u (cursor db u mod ?n + 1) db"
  obtain db' where ih: "next_genre_times genres u n ?db1 =
      Inr (map (\<lambda>j. (cursor ?db1 u + int j) mod ?n) [0..<n], db')"
    using Suc.IH by blast
  have shift: "(cursor ?db1 u + int j) mod ?n = (cursor db u + int (Suc j)) mod ?n" for j
  proof -
    have "(cursor db u mod ?n + (1 + int j)) mod ?n = (cursor db u + (1 + int j)) mod ?n"
      by (rule mod_add_left_eq)
    then show ?thesis by (simp add: cursor_set_user_idx add.assoc)
  qed
  have "map (\<lambda>j. (cursor db u + int j) mod ?n) [0..<Suc n] =
        cursor db u mod ?n # map (\<lambda>j. (cursor ?db1 u + int j) mod ?n) [0..<n]"
    unfolding shift by (simp only: map_upt_Suc) simp
  then show ?case
    using ih by (simp add: next_genre_step [OF assms])
qed

lemma cycle_ge3:
  assumes "3 \<le> n"
  shows "map (\<lambda>j. int j mod int n) [0..<n + 3] = map int [0..<n] @ [0, 1, 2]"
proof -
  have a: "map (\<lambda>j. int j mod int n) [0..<n] = map int [0..<n]"
    by (rule map_cong) auto
  have "[0..<n + 3] = [0..<n] @ [n, n + 1, n + 2]"
    by (simp add: upt_rec [of n] upt_rec [of "Suc n"] upt_rec [of "Suc (Suc n)"] numeral_3_eq_3 upt_add_eq_append [of 0 n 3, simplified])
  then show ?thesis using assms a by (simp add: mod_eq_self_iff_div_eq_0 )
qed


text \<open>
  C3, as amended. For a user without a stored cursor and a catalog of size \<open>N \<ge> 1\<close>,
  \<open>N + 3\<close> calls of \<^verbatim>\<open>/next\<close> in sequence show the genre ids \<open>j mod N\<close> for
  \<open>j = 0, ..., N + 2\<close>; when \<open>N \<ge> 3\<close> these are \<open>0, 1, ..., N - 1, 0, 1, 2\<close>.
\<close>

theorem next_genre_cycles:
  assumes "genres \<noteq> []" and "progress db u = None"
  shows "(\<exists>db'. next_genre_times genres u (length genres + 3) db =
            Inr (map (\<lambda>j. int j mod int (length genres)) [0..<length genres + 3], db')) \<and>
         (3 \<le> length genres \<longrightarrow>
          (\<exists>db'. next_genre_times genres u (length genres + 3) db =
            Inr (map int [0..<length genres] @ [0, 1, 2], db')))"
proof -
  have c: "cursor db u = 0"
    using assms(2) by (simp add: cursor_def get_user_idx_def)
  obtain db' where run: "next_genre_times genres u (length genres + 3) db =
      Inr (map (\<lambda>j. int j mod int (length genres)) [0..<length genres + 3], db')"
    using next_genre_times_ids [OF assms(1), of u "length genres + 3" db] by (auto simp: c)
  show ?thesis
    using run cycle_ge3 [of "length genres"] by auto
qed

text \<open>The catalog of the specification's example, with three genres.\<close>

theorem next_genre_cycles_witness:
  "[''Jazz'', ''Pop'', ''Metal''] \<noteq> [] \<and> progress empty_store 42 = None \<and>
   3 \<le> length [''Jazz'', ''Pop'', ''Metal''] \<and>
   (\<exists>db'. next_genre_times [''Jazz'', ''Pop'', ''Metal''] 42 6 empty_store =
      Inr ([0, 1, 2, 0, 1, 2], db'))"
  using next_genre_cycles [of "[''Jazz'', ''Pop'', ''Metal'']" empty_store 42]
  by (simp add: empty_store_def upt_rec)

text \<open>
  With two genres, five calls show \<open>0, 1, 0, 1, 0\<close>, not \<open>0, 1, 0, 1, 2\<close>: the id 2
  does not exist in that catalog.
\<close>

theorem next_genre_cycles_counterexample:
  "(case next_genre_times [''Jazz'', ''Pop''] 42 (length [''Jazz'', ''Pop''] + 3) empty_store of
      Inl e \<Rightarrow> False
    | Inr (ids, db') \<Rightarrow>
        ids = [0, 1, 0, 1, 0] \<and> ids \<noteq> map int [0..<length [''Jazz'', ''Pop'']] @ [0, 1, 2])"
  by code_simp

text \<open>
  C4, as amended. A call of \<^verbatim>\<open>/next\<close> stores \<open>(c mod N) + 1\<close>, where \<open>c\<close> is the
  cursor it read (0 when the user had no row) and \<open>N \<ge> 1\<close> is the size of the catalog:
  the reduction modulo \<open>N\<close> happens before the increment and its result is what is
  stored. The stored cursor therefore lies between 1 and \<open>N\<close>; it is \<open>c + 1\<close> when
  \<open>0 \<le> c < N\<close>, and 1 when \<open>c = N\<close>.
\<close>

theorem next_genre_stores_reduced_cursor:
  assumes "genres \<noteq> []"
  shows "\<exists>r db'. next_genre genres u db = Inr (r, db') \<and>
           progress db' u = Some (cursor db u mod int (length genres) + 1) \<and>
           1 \<le> cursor db' u \<and> cursor db' u \<le> int (length genres) \<and>
           (0 \<le> cursor db u \<and> cursor db u < int (length genres) \<longrightarrow>
              cursor db' u = cursor db u + 1) \<and>
           (cursor db u = int (length genres) \<longrightarrow> cursor db' u = 1)"
proof -
  let ?n = "int (length genres)"
  have pos: "0 < ?n" using assms by simp
  have rng: "0 \<le> cursor db u mod ?n" "cursor db u mod ?n < ?n"
    using pos by simp_all
  show ?thesis
    using rng by (auto simp: next_genre_step [OF assms] cursor_set_user_idx progress_set_user_idx)
qed

text \<open>Three genres and the stored cursor 3: the next stored cursor is 1.\<close>

theorem next_genre_stores_reduced_cursor_witness:
  "[''Jazz'', ''Pop'', ''Metal''] \<noteq> [] \<and>
   cursor (set_user_idx 42 3 empty_store) 42 = int (length [''Jazz'', ''Pop'', ''Metal'']) \<and>
   (\<exists>r db'. next_genre [''Jazz'', ''Pop'', ''Metal''] 42 (set_user_idx 42 3 empty_store) = Inr (r, db') \<and>
      progress db' 42 = Some 1 \<and> cursor db' 42 = 1)"
  using next_genre_stores_reduced_cursor [of "[''Jazz'', ''Pop'', ''Metal'']" 42 "set_user_idx 42 3 empty_store"]
  by (auto simp: cursor_set_user_idx)

text \<open>
  Three calls on the empty store leave the cursor 3; the fourth call stores 1, which is
  not greater than 3.
\<close>

theorem next_genre_cursor_counterexample:
  "(case next_genre_times [''Jazz'', ''Pop'', ''Metal''] 42 3 empty_store of
      Inl e \<Rightarrow> False
    | Inr (ids, db) \<Rightarrow>
        progress db 42 = Some 3 \<and>
        (case next_genre [''Jazz'', ''Pop'', ''Metal''] 42 db of
           Inl e \<Rightarrow> False
         | Inr (r, db') \<Rightarrow> progress db' 42 = Some 1 \<and> \<not> cursor db 42 < cursor db' 42))"
  by code_simp

section \<open>Properties of the pagination\<close>

lemma total_pages_value:
  "1 \<le> k \<Longrightarrow> total_pages n k = Inr (max 1 \<lceil>real n / real_of_int k\<rceil>)"
  by (simp add: total_pages_def)

lemma ceiling_pages_bounds:
  assumes "1 \<le> (k::int)"
  shows "int n \<le> \<lceil>real n / real_of_int k\<rceil> * k"
    and "(\<lceil>real n / real_of_int k\<rceil> - 1) * k < max 1 (int n)"
    and "0 \<le> \<lceil>real n / real_of_int k\<rceil>"
proof -
  let ?x = "real n / real_of_int k"
  have kpos: "0 < real_of_int k" using assms by simp
  have up: "?x \<le> real_of_int \<lceil>?x\<rceil>" by (rule le_of_int_ceiling)
  have "real n = ?x * real_of_int k" using kpos by simp
  also have "\<dots> \<le> real_of_int \<lceil>?x\<rceil> * real_of_int k"
    using up kpos by (intro mult_right_mono) simp_all
  finally have "real n \<le> real_of_int \<lceil>?x\<rceil> * real_of_int k" .
  then have "real_of_int (int n) \<le> real_of_int (\<lceil>?x\<rceil> * k)" by simp
  then show "int n \<le> \<lceil>?x\<rceil> * k" by (simp only: of_int_le_iff)
  have "(0::real) \<le> ?x" using kpos by simp
  then have "\<lceil>0::real\<rceil> \<le> \<lceil>?x\<rceil>" by (rule ceiling_mono)
  then show "0 \<le> \<lceil>?x\<rceil>" by (simp only: ceiling_zero)
  show "(\<lceil>?x\<rceil> - 1) * k < max 1 (int n)"
  proof (cases "n = 0")
    case True
    then show ?thesis using assms by simp
  next
    case False
    have "real_of_int \<lceil>?x\<rceil> - 1 < ?x" using ceiling_correct [of ?x] by simp
    then have "(real_of_int \<lceil>?x\<rceil> - 1) * real_of_int k < ?x * real_of_int k"
      using kpos by (intro mult_strict_right_mono) simp_all
    also have "\<dots> = real n" using kpos by simp
    finally have "(real_of_int \<lceil>?x\<rceil> - 1) * real_of_int k < real n" .
    then have "real_of_int ((\<lceil>?x\<rceil> - 1) * k) < real_of_int (int n)" by simp
    then have "(\<lceil>?x\<rceil> - 1) * k < int n" by (simp only: of_int_less_iff)
    then show ?thesis by simp
  qed
qed

lemma total_pages_covers:
  assumes "1 \<le> k" and "total_pages n k = Inr tp"
  shows "1 \<le> tp \<and> int n \<le> tp * k \<and> (tp - 1) * k < max 1 (int n)"
proof -
  let ?c = "\<lceil>real n / real_of_int k\<rceil>"
  have tp: "tp = max 1 ?c" using assms by (simp add: total_pages_def)
  note b = ceiling_pages_bounds [OF assms(1), of n]
  show ?thesis
  proof (cases "1 \<le> ?c")
    case True
    then have "tp = ?c" using tp by simp
    then show ?thesis using b True by simp
  next
    case False
    then have c0: "?c = 0" using b(3) by linarith
    then have "tp = 1" using tp by simp
    moreover have "int n \<le> 0" using b(1) c0 by simp
    ultimately show ?thesis using assms(1) by simp
  qed
qed

lemma py_slice_nonneg:
  assumes "0 \<le> start" and "0 \<le> k"
  shows "py_slice xs start (start + k) = take (nat k) (drop (nat start) xs)"
proof (cases "start \<le> int (length xs)")
  case False
  then show ?thesis using assms by (simp add: py_slice_def slice_bound_def Let_def)
next
  case True
  note inside = this
  show ?thesis
  proof (cases "start + k \<le> int (length xs)")
    case True
    then show ?thesis using assms inside
      by (simp add: py_slice_def slice_bound_def Let_def min_def)
  next
    case False
    then have "length (drop (nat start) xs) \<le> nat k" using assms by simp
    then have "take (nat k) (drop (nat start) xs) = drop (nat start) xs" by simp
    moreover have "py_slice xs start (start + k) = drop (nat start) xs"
      using assms inside False by (simp add: py_slice_def slice_bound_def Let_def min_def nat_diff_distrib)
    ultimately show ?thesis by simp
  qed
qed

lemma window_length:
  assumes "0 \<le> s" and "s \<le> int (length xs)" and "0 \<le> k"
  shows "int (length (take (nat k) (drop (nat s) xs))) = min (s + k) (int (length xs)) - s"
  using assms by (auto simp: min_def)

lemma page_window:
  assumes "1 \<le> k" and "total_pages (length xs) k = Inr tp" and "0 \<le> p" and "p \<le> tp - 1"
  shows "p * k \<le> int (length xs)"
    and "py_slice xs (p * k) (p * k + k) = take (nat k) (drop (nat (p * k)) xs)"
    and "int (length (py_slice xs (p * k) (p * k + k))) = min (p * k + k) (int (length xs)) - p * k"
    and "\<forall>j < length (py_slice xs (p * k) (p * k + k)).
           py_slice xs (p * k) (p * k + k) ! j = xs ! (nat (p * k) + j)"
proof -
  have c: "(tp - 1) * k < max 1 (int (length xs))"
    using total_pages_covers [OF assms(1,2)] by simp
  have "p * k \<le> (tp - 1) * k"
    using assms(1,4) by (intro mult_right_mono) simp_all
  then show le: "p * k \<le> int (length xs)" using c by simp
  have nn: "0 \<le> p * k" using assms(1,3) by simp
  show eq: "py_slice xs (p * k) (p * k + k) = take (nat k) (drop (nat (p * k)) xs)"
    using nn assms(1) by (intro py_slice_nonneg) simp_all
  show "int (length (py_slice xs (p * k) (p * k + k))) = min (p * k + k) (int (length xs)) - p * k"
    using window_length [OF nn le, of k] assms(1) by (simp only: eq)
  show "\<forall>j < length (py_slice xs (p * k) (p * k + k)).
           py_slice xs (p * k) (p * k + k) ! j = xs ! (nat (p * k) + j)"
    using le by (simp add: eq nat_le_iff)
qed

lemma sv_prev_page:
  "1 \<le> sv_page_size v \<Longrightarrow>
   map_sum id sv_page (sv_prev_button v) = Inr (max 0 (sv_page v - 1))"
  by (simp add: sv_prev_button_def sv_update_buttons_def sv_total_pages_def total_pages_def)

lemma sv_next_page:
  "1 \<le> sv_page_size v \<Longrightarrow> sv_total_pages v = Inr tp \<Longrightarrow>
   map_sum id sv_page (sv_next_button v) = Inr (min (tp - 1) (sv_page v + 1))"
  by (simp add: sv_next_button_def sv_update_buttons_def sv_total_pages_def total_pages_def)

lemma rv_prev_page:
  "1 \<le> rv_page_size w \<Longrightarrow>
   map_sum id rv_page (rv_prev_button w) = Inr (max 0 (rv_page w - 1))"
  by (simp add: rv_prev_button_def rv_update_buttons_def rv_total_pages_def total_pages_def)

lemma rv_next_page:
  "1 \<le> rv_page_size w \<Longrightarrow> rv_total_pages w = Inr tp \<Longrightarrow>
   map_sum id rv_page (rv_next_button w) = Inr (min (tp - 1) (rv_page w + 1))"
  by (simp add: rv_next_button_def rv_update_buttons_def rv_total_pages_def total_pages_def)

text \<open>
  C6. For every view with a page size \<open>k \<ge> 1\<close> over \<open>n\<close> elements, the number of
  pages is \<open>max 1 (ceil (n / k))\<close>, which is 1 for an empty sequence; the button
  "previous" moves to \<open>max 0 (page - 1)\<close>, so it stays at page 0 from page 0; the button
  "next" moves to \<open>min (totalPages - 1) (page + 1)\<close>, so it stays at the last page from
  the last page. This holds for \<^verbatim>\<open>SearchResultsView\<close> and for \<^verbatim>\<open>RankView\<close>.
\<close>

theorem pagination_bounds:
  assumes "1 \<le> sv_page_size v" and "1 \<le> rv_page_size w"
  shows
    "sv_total_pages v =
       Inr (max 1 \<lceil>real (length (sv_results v)) / real_of_int (sv_page_size v)\<rceil>) \<and>
     rv_total_pages w =
       Inr (max 1 \<lceil>real (length (rv_items w)) / real_of_int (rv_page_size w)\<rceil>) \<and>
     sv_total_pages (v\<lparr>sv_results := []\<rparr>) = Inr 1 \<and>
     rv_total_pages (w\<lparr>rv_items := []\<rparr>) = Inr 1 \<and>
     map_sum id sv_page (sv_prev_button v) = Inr (max 0 (sv_page v - 1)) \<and>
     map_sum id rv_page (rv_prev_button w) = Inr (max 0 (rv_page w - 1)) \<and>
     map_sum id sv_page (sv_prev_button (v\<lparr>sv_page := 0\<rparr>)) = Inr 0 \<and>
     map_sum id rv_page (rv_prev_button (w\<lparr>rv_page := 0\<rparr>)) = Inr 0 \<and>
     (\<forall>tp. sv_total_pages v = Inr tp \<longrightarrow>
        map_sum id sv_page (sv_next_button v) = Inr (min (tp - 1) (sv_page v + 1)) \<and>
        map_sum id sv_page (sv_next_button (v\<lparr>sv_page := tp - 1\<rparr>)) = Inr (tp - 1)) \<and>
     (\<forall>tp. rv_total_pages w = Inr tp \<longrightarrow>
        map_sum id rv_page (rv_next_button w) = Inr (min (tp - 1) (rv_page w + 1)) \<and>
        map_sum id rv_page (rv_next_button (w\<lparr>rv_page := tp - 1\<rparr>)) = Inr (tp - 1))"
proof (intro conjI allI impI)
  show "sv_total_pages v =
       Inr (max 1 \<lceil>real (length (sv_results v)) / real_of_int (sv_page_size v)\<rceil>)"
    using assms(1) by (simp add: sv_total_pages_def total_pages_def)
  show "rv_total_pages w =
       Inr (max 1 \<lceil>real (length (rv_items w)) / real_of_int (rv_page_size w)\<rceil>)"
    using assms(2) by (simp add: rv_total_pages_def total_pages_def)
  show "sv_total_pages (v\<lparr>sv_results := []\<rparr>) = Inr 1"
    using assms(1) by (simp add: sv_total_pages_def total_pages_def)
  show "rv_total_pages (w\<lparr>rv_items := []\<rparr>) = Inr 1"
    using assms(2) by (simp add: rv_total_pages_def total_pages_def)
  show "map_sum id sv_page (sv_prev_button v) = Inr (max 0 (sv_page v - 1))"
    by (rule sv_prev_page [OF assms(1)])
  show "map_sum id rv_page (rv_prev_button w) = Inr (max 0 (rv_page w - 1))"
    by (rule rv_prev_page [OF assms(2)])
  show "map_sum id sv_page (sv_prev_button (v\<lparr>sv_page := 0\<rparr>)) = Inr 0"
    using sv_prev_page [of "v\<lparr>sv_page := 0\<rparr>"] assms(1) by simp
  show "map_sum id rv_page (rv_prev_button (w\<lparr>rv_page := 0\<rparr>)) = Inr 0"
    using rv_prev_page [of "w\<lparr>rv_page := 0\<rparr>"] assms(2) by simp
next
  fix tp assume tp: "sv_total_pages v = Inr tp"
  show "map_sum id sv_page (sv_next_button v) = Inr (min (tp - 1) (sv_page v + 1))"
    by (rule sv_next_page [OF assms(1) tp])
  have "sv_total_pages (v\<lparr>sv_page := tp - 1\<rparr>) = Inr tp"
    using tp by (simp add: sv_total_pages_def)
  then show "map_sum id sv_page (sv_next_button (v\<lparr>sv_page := tp - 1\<rparr>)) = Inr (tp - 1)"
    using sv_next_page [of "v\<lparr>sv_page := tp - 1\<rparr>" tp] assms(1) by simp
next
  fix tp assume tp: "rv_total_pages w = Inr tp"
  show "map_sum id rv_page (rv_next_button w) = Inr (min (tp - 1) (rv_page w + 1))"
    by (rule rv_next_page [OF assms(2) tp])
  have "rv_total_pages (w\<lparr>rv_page := tp - 1\<rparr>) = Inr tp"
    using tp by (simp add: rv_total_pages_def)
  then show "map_sum id rv_page (rv_next_button (w\<lparr>rv_page := tp - 1\<rparr>)) = Inr (tp - 1)"
    using rv_next_page [of "w\<lparr>rv_page := tp - 1\<rparr>" tp] assms(2) by simp
qed

text \<open>Five matches in pages of two, on the last page; three ranked genres on one page.\<close>

theorem pagination_bounds_witness:
  "1 \<le> sv_page_size example_search_view \<and> 1 \<le> rv_page_size example_rank_view \<and>
   sv_total_pages example_search_view = Inr 3 \<and>
   rv_total_pages example_rank_view = Inr 1 \<and>
   map_sum id sv_page (sv_next_button example_search_view) = Inr 2 \<and>
   map_sum id sv_page (sv_prev_button example_search_view) = Inr 1 \<and>
   map_sum id rv_page (rv_next_button example_rank_view) = Inr 0 \<and>
   map_sum id rv_page (rv_prev_button example_rank_view) = Inr 0"
proof -
  have sv: "sv_total_pages example_search_view = Inr 3"
    by (simp add: sv_total_pages_def total_pages_def example_search_view_def)
  have rv: "rv_total_pages example_rank_view = Inr 1"
    by (simp add: rv_total_pages_def total_pages_def example_rank_view_def)
  have k: "1 \<le> sv_page_size example_search_view" "1 \<le> rv_page_size example_rank_view"
    by (simp_all add: example_search_view_def example_rank_view_def)
  have p: "sv_page example_search_view = 2" "rv_page example_rank_view = 0"
    by (simp_all add: example_search_view_def example_rank_view_def)
  show ?thesis
    using pagination_bounds [OF k] sv rv k p by simp
qed

lemma length_py_sorted: "length (py_sorted key r xs) = length xs"
  by (simp add: py_sorted_def)

text \<open>
  C7, as amended. For a view with page size \<open>k \<ge> 1\<close> over \<open>n\<close> elements and a page
  in \<open>[0, totalPages - 1]\<close>, \<^verbatim>\<open>_page_slice\<close> returns the start offset \<open>page * k\<close>,
  the end offset \<open>start + k\<close> (which is not clipped to \<open>n\<close>), and the elements at the
  positions from \<open>start\<close> up to, not including, \<open>min (start + k) n\<close>; the start lies
  within the sequence. \<^verbatim>\<open>RankView\<close> slices the sorted items and also returns their
  number.
\<close>

theorem page_slice_window:
  assumes "1 \<le> sv_page_size v" and "sv_total_pages v = Inr tp"
    and "0 \<le> sv_page v" and "sv_page v \<le> tp - 1"
    and "1 \<le> rv_page_size w" and "rv_total_pages w = Inr tq"
    and "0 \<le> rv_page w" and "rv_page w \<le> tq - 1"
  shows
    "(\<exists>sub. sv_page_slice v =
         (sub, sv_page v * sv_page_size v, sv_page v * sv_page_size v + sv_page_size v) \<and>
       sv_page v * sv_page_size v \<le> int (length (sv_results v)) \<and>
       int (length sub) =
         min (sv_page v * sv_page_size v + sv_page_size v) (int (length (sv_results v))) -
         sv_page v * sv_page_size v \<and>
       (\<forall>j < length sub. sub ! j = sv_results v ! (nat (sv_page v * sv_page_size v) + j))) \<and>
     (\<exists>sub. rv_page_slice w =
         (sub, rv_page w * rv_page_size w, rv_page w * rv_page_size w + rv_page_size w,
          int (length (rv_items w))) \<and>
       rv_page w * rv_page_size w \<le> int (length (rv_items w)) \<and>
       int (length sub) =
         min (rv_page w * rv_page_size w + rv_page_size w) (int (length (rv_items w))) -
         rv_page w * rv_page_size w \<and>
       (\<forall>j < length sub. sub ! j = rv_sorted_items w ! (nat (rv_page w * rv_page_size w) + j)))"
proof (rule conjI)
  have tp: "total_pages (length (sv_results v)) (sv_page_size v) = Inr tp"
    using assms(2) by (simp add: sv_total_pages_def)
  note win = page_window [OF assms(1) tp assms(3,4)]
  show "\<exists>sub. sv_page_slice v =
         (sub, sv_page v * sv_page_size v, sv_page v * sv_page_size v + sv_page_size v) \<and>
       sv_page v * sv_page_size v \<le> int (length (sv_results v)) \<and>
       int (length sub) =
         min (sv_page v * sv_page_size v + sv_page_size v) (int (length (sv_results v))) -
         sv_page v * sv_page_size v \<and>
       (\<forall>j < length sub. sub ! j = sv_results v ! (nat (sv_page v * sv_page_size v) + j))"
    using win(1,3,4) by (simp add: sv_page_slice_def Let_def)
next
  have sz: "length (rv_sorted_items w) = length (rv_items w)"
    by (simp add: rv_sorted_items_def length_py_sorted)
  have tq: "total_pages (length (rv_sorted_items w)) (rv_page_size w) = Inr tq"
    using assms(6) by (simp add: rv_total_pages_def sz)
  note win = page_window [OF assms(5) tq assms(7,8)]
  show "\<exists>sub. rv_page_slice w =
         (sub, rv_page w * rv_page_size w, rv_page w * rv_page_size w + rv_page_size w,
          int (length (rv_items w))) \<and>
       rv_page w * rv_page_size w \<le> int (length (rv_items w)) \<and>
       int (length sub) =
         min (rv_page w * rv_page_size w + rv_page_size w) (int (length (rv_items w))) -
         rv_page w * rv_page_size w \<and>
       (\<forall>j < length sub. sub ! j = rv_sorted_items w ! (nat (rv_page w * rv_page_size w) + j))"
    using win(1,3,4) by (simp add: rv_page_slice_def Let_def sz)
qed

text \<open>The last page of the five matches holds one element; its end offset is 6.\<close>

theorem page_slice_window_witness:
  "1 \<le> sv_page_size example_search_view \<and>
   sv_total_pages example_search_view = Inr 3 \<and>
   0 \<le> sv_page example_search_view \<and> sv_page example_search_view \<le> 3 - 1 \<and>
   1 \<le> rv_page_size example_rank_view \<and>
   rv_total_pages example_rank_view = Inr 1 \<and>
   0 \<le> rv_page example_rank_view \<and> rv_page example_rank_view \<le> 1 - 1 \<and>
   sv_page_slice example_search_view = ([(4, ''Samba'')], 4, 6) \<and>
   rv_page_slice example_rank_view =
     ([(7, 0, ''Jazz''), (7, 2, ''Metal''), (6.7, 1, ''Pop'')], 0, 15, 3)"
proof -
  have sv: "sv_total_pages example_search_view = Inr 3"
    by (simp add: sv_total_pages_def total_pages_def example_search_view_def)
  have rv: "rv_total_pages example_rank_view = Inr 1"
    by (simp add: rv_total_pages_def total_pages_def example_rank_view_def)
  have k: "1 \<le> sv_page_size example_search_view" "1 \<le> rv_page_size example_rank_view"
    by (simp_all add: example_search_view_def example_rank_view_def)
  have p: "0 \<le> sv_page example_search_view" "sv_page example_search_view \<le> 3 - 1"
    "0 \<le> rv_page example_rank_view" "rv_page example_rank_view \<le> 1 - 1"
    by (simp_all add: example_search_view_def example_rank_view_def)
  have s1: "sv_page_slice example_search_view = ([(4, ''Samba'')], 4, 6)"
    by (simp add: sv_page_slice_def example_search_view_def py_slice_def slice_bound_def)
  have s2: "rv_page_slice example_rank_view =
     ([(7, 0, ''Jazz''), (7, 2, ''Metal''), (6.7, 1, ''Pop'')], 0, 15, 3)"
    by (simp add: rv_page_slice_def rv_sorted_items_def py_sorted_def example_rank_view_def
        py_slice_def slice_bound_def)
  show ?thesis
    using page_slice_window [OF k(1) sv p(1,2) k(2) rv p(3,4)] sv rv k p s1 s2 by simp
qed

text \<open>
  The search for \<open>a\<close> in a catalog of three genres finds two of them; the only page
  has the end offset 15, not \<open>min (0 + 15) 2\<close>.
\<close>

theorem page_slice_end_counterexample:
  "(case search_genres [''Jazz'', ''Pop'', ''Metal''] 1 ''a'' of
      Inr (Found view) \<Rightarrow>
        sv_page view = 0 \<and> sv_page_size view = 15 \<and> sv_total_pages view = Inr 1 \<and>
        sv_page_slice view = ([(0, ''Jazz''), (2, ''Metal'')], 0, 15) \<and>
        (15::int) \<noteq> min (0 + 15) (int (length (sv_results view)))
    | _ \<Rightarrow> False)"
  by code_simp

section \<open>Properties of the ranking\<close>

lemma py_sorted_stable:
  "filter (\<lambda>y. key y = k) (py_sorted key r xs) = filter (\<lambda>y. key y = k) xs"
proof (cases r)
  case False
  then show ?thesis by (simp add: py_sorted_def sort_key_stable)
next
  case True
  have "filter (\<lambda>y. key y = k) (rev (sort_key key (rev xs))) =
        rev (filter (\<lambda>y. key y = k) (sort_key key (rev xs)))"
    by (simp add: rev_filter)
  also have "\<dots> = rev (filter (\<lambda>y. key y = k) (rev xs))"
    by (simp only: sort_key_stable)
  also have "\<dots> = filter (\<lambda>y. key y = k) xs"
    by (simp add: rev_filter)
  finally show ?thesis using True by (simp add: py_sorted_def)
qed

lemma mset_py_sorted: "mset (py_sorted key r xs) = mset xs"
  by (simp add: py_sorted_def)

lemma py_sorted_ascending: "sorted (map key (py_sorted key False xs))"
  by (simp add: py_sorted_def)

lemma py_sorted_descending: "sorted (rev (map key (py_sorted key True xs)))"
  by (simp add: py_sorted_def rev_map [symmetric])

lemma rank_items_fetch_order:
  "rank_items genres rows = Inr items \<Longrightarrow>
   map (\<lambda>(sc, genre_id, name). (Some sc, genre_id)) items =
   map (\<lambda>(genre_id, r). (computed_score (score1 r) (score2 r) (flag1 r) (flag2 r), genre_id))
     (filter (\<lambda>(genre_id, r). computed_score (score1 r) (score2 r) (flag1 r) (flag2 r) \<noteq> None) rows)"
proof (induction rows arbitrary: items)
  case Nil
  then show ?case by simp
next
  case (Cons row rows)
  obtain genre_id r where row: "row = (genre_id, r)" by (cases row)
  show ?case
  proof (cases "computed_score (score1 r) (score2 r) (flag1 r) (flag2 r)")
    case None
    then show ?thesis using Cons row by simp
  next
    case (Some sc)
    then show ?thesis using Cons row
      by (auto split: sum.splits)
  qed
qed

lemma rank_items_ties:
  "rank_items genres rows = Inr items \<Longrightarrow>
   map (fst \<circ> snd) (filter (\<lambda>x. fst x = sc) items) =
   map fst (filter (\<lambda>(genre_id, r).
     computed_score (score1 r) (score2 r) (flag1 r) (flag2 r) = Some sc) rows)"
proof (induction rows arbitrary: items)
  case Nil
  then show ?case by simp
next
  case (Cons row rows)
  obtain genre_id r where row: "row = (genre_id, r)" by (cases row)
  show ?case
  proof (cases "computed_score (score1 r) (score2 r) (flag1 r) (flag2 r)")
    case None
    then show ?thesis using Cons row by simp
  next
    case (Some sc')
    then show ?thesis using Cons row
      by (auto split: sum.splits)
  qed
qed

lemma rv_sorted_items_stable:
  "filter (\<lambda>x. fst x = sc) (rv_sorted_items v) = filter (\<lambda>x. fst x = sc) (rv_items v)"
  by (simp add: rv_sorted_items_def py_sorted_stable)

text \<open>
  C8. The ranking is stable under ties: for every score, the items of the ranked output
  that have this score are the items of the view that have it, in the same order, in
  the descending and in the ascending direction. The items of the view are the fetched
  rows that have a computed score, in fetch order, so the genres with a given computed
  score appear in the ranked output in the order in which their rows were fetched.
\<close>

theorem ranking_stable:
  "filter (\<lambda>x. fst x = sc) (rv_sorted_items (v\<lparr>rv_order := ''desc''\<rparr>)) =
     filter (\<lambda>x. fst x = sc) (rv_items v) \<and>
   filter (\<lambda>x. fst x = sc) (rv_sorted_items (v\<lparr>rv_order := ''asc''\<rparr>)) =
     filter (\<lambda>x. fst x = sc) (rv_items v) \<and>
   filter (\<lambda>x. fst x = sc) (rv_sorted_items v) = filter (\<lambda>x. fst x = sc) (rv_items v) \<and>
   (rank_items genres rows = Inr (rv_items v) \<longrightarrow>
      map (fst \<circ> snd) (filter (\<lambda>x. fst x = sc) (rv_sorted_items v)) =
      map fst (filter (\<lambda>(genre_id, r).
        computed_score (score1 r) (score2 r) (flag1 r) (flag2 r) = Some sc) rows))"
proof (intro conjI impI)
  show "filter (\<lambda>x. fst x = sc) (rv_sorted_items (v\<lparr>rv_order := ''desc''\<rparr>)) =
     filter (\<lambda>x. fst x = sc) (rv_items v)"
    using rv_sorted_items_stable [of sc "v\<lparr>rv_order := ''desc''\<rparr>"] by simp
  show "filter (\<lambda>x. fst x = sc) (rv_sorted_items (v\<lparr>rv_order := ''asc''\<rparr>)) =
     filter (\<lambda>x. fst x = sc) (rv_items v)"
    using rv_sorted_items_stable [of sc "v\<lparr>rv_order := ''asc''\<rparr>"] by simp
  show "filter (\<lambda>x. fst x = sc) (rv_sorted_items v) = filter (\<lambda>x. fst x = sc) (rv_items v)"
    by (rule rv_sorted_items_stable)
next
  assume "rank_items genres rows = Inr (rv_items v)"
  then show "map (fst \<circ> snd) (filter (\<lambda>x. fst x = sc) (rv_sorted_items v)) =
      map fst (filter (\<lambda>(genre_id, r).
        computed_score (score1 r) (score2 r) (flag1 r) (flag2 r) = Some sc) rows)"
    by (simp only: rv_sorted_items_stable rank_items_ties)
qed

text \<open>Three fetched rows, two of them with the computed score 7.\<close>

theorem ranking_stable_witness:
  "rank_items [''Jazz'', ''Pop'', ''Metal''] example_rows = Inr (rv_items example_rank_view) \<and>
   rv_sorted_items example_rank_view =
     [(7, 0, ''Jazz''), (7, 2, ''Metal''), (6.7, 1, ''Pop'')] \<and>
   rv_sorted_items (example_rank_view\<lparr>rv_order := ''asc''\<rparr>) =
     [(6.7, 1, ''Pop''), (7, 0, ''Jazz''), (7, 2, ''Metal'')] \<and>
   map fst (filter (\<lambda>(genre_id, r).
     computed_score (score1 r) (score2 r) (flag1 r) (flag2 r) = Some 7) example_rows) = [0, 2]"
proof -
  have items: "rank_items [''Jazz'', ''Pop'', ''Metal''] example_rows =
      Inr (rv_items example_rank_view)"
    by (simp add: example_rows_def example_rank_view_def computed_score_def py_index_def)
  have d: "rv_sorted_items example_rank_view =
     [(7, 0, ''Jazz''), (7, 2, ''Metal''), (6.7, 1, ''Pop'')]"
    by (simp add: rv_sorted_items_def py_sorted_def example_rank_view_def)
  have a: "rv_sorted_items (example_rank_view\<lparr>rv_order := ''asc''\<rparr>) =
     [(6.7, 1, ''Pop''), (7, 0, ''Jazz''), (7, 2, ''Metal'')]"
    by (simp add: rv_sorted_items_def py_sorted_def example_rank_view_def)
  have t: "map (fst \<circ> snd) (filter (\<lambda>x. fst x = 7) (rv_sorted_items example_rank_view)) =
      map fst (filter (\<lambda>(genre_id, r).
        computed_score (score1 r) (score2 r) (flag1 r) (flag2 r) = Some 7) example_rows)"
    using ranking_stable [of 7 example_rank_view "[''Jazz'', ''Pop'', ''Metal'']" example_rows]
      items by blast
  have r: "map fst (filter (\<lambda>(genre_id, r).
     computed_score (score1 r) (score2 r) (flag1 r) (flag2 r) = Some 7) example_rows) = [0, 2]"
    unfolding t [symmetric] d by simp
  show ?thesis
    using items d a r by (intro conjI)
qed

section \<open>Properties of the search\<close>






















text \<open>
  Beyond ASCII: the query U+00E9 finds a name that starts with U+00C9, and a query that
  is a single no-break space is rejected.
\<close>

lemma search_genres_latin1_example:
  "search_genres [''Pop'', CHR 0xC9 # ''lectro''] 1 [CHR 0xE9] =
     Inr (Found \<lparr>sv_user_id = 1, sv_results = [(1, CHR 0xC9 # ''lectro'')],
                 sv_query = [CHR 0xE9], sv_page_size = 15, sv_page = 0,
                 sv_prev_disabled = True, sv_next_disabled = True\<rparr>) \<and>
   search_genres [''Pop'', CHR 0xC9 # ''lectro''] 1 [CHR 0xA0] = Inr EmptyQuery"
  by code_simp

end
